theory Spec2Isabelle
  imports Main
begin

section \<open>Park Spotter: the polling and notification loop of \<^verbatim>\<open>App.js\<close>\<close>

text \<open>
  The development embeds the \<^verbatim>\<open>App\<close> component of \<^verbatim>\<open>src/App.js\<close>: the function
  \<^verbatim>\<open>fetchSpots\<close> (lines 67-107), the effects that call it (lines 31-146) and the
  background task (lines 159-173). Everything the component does to the outside world
  (HTTP requests, console output, React state setters, push notifications, timers and
  task registrations) is recorded as an event, in program order, so that the order and
  the arguments of the calls can be stated. The answers of the outside world (what a
  request returns, whether a push send rejects, what the token registration returns) are
  inputs of the model.
\<close>

subsection \<open>JavaScript values\<close>

text \<open>
  The values \<^verbatim>\<open>JSON.parse\<close> can return, and \<^verbatim>\<open>undefined\<close>. Numbers are
  restricted to the integers: the feed's counts are integers, and nothing below
  depends on fractions.
\<close>

datatype jsval =
    JUndefined
  | JNull
  | JBool bool
  | JNum int
  | JStr string
  | JArr "jsval list"
  | JObj "(string \<times> jsval) list"

text \<open>
  What a promise can reject with, or a callback throw: \<^verbatim>\<open>fetch\<close> rejecting,
  \<^verbatim>\<open>response.text()\<close> rejecting, \<^verbatim>\<open>JSON.parse\<close> throwing, a property read on
  \<^verbatim>\<open>null\<close>, and \<^verbatim>\<open>schedulePushNotification\<close> rejecting.
\<close>

datatype js_error = NetworkError | BodyError | SyntaxError | TypeError | PushError

text \<open>
  The property read \<^verbatim>\<open>data.free_spots\<close>, for a name that no prototype defines:
  a \<^verbatim>\<open>TypeError\<close> on \<^verbatim>\<open>null\<close> and \<^verbatim>\<open>undefined\<close>, the own property of an object,
  and \<^verbatim>\<open>undefined\<close> everywhere else (absent key, array, string, number, boolean).
  The association list of \<open>JObj\<close> holds the own properties of the parsed object.
\<close>

fun get_prop :: "jsval \<Rightarrow> string \<Rightarrow> js_error + jsval" where
  "get_prop JUndefined k = Inl TypeError"
| "get_prop JNull k = Inl TypeError"
| "get_prop (JObj kvs) k = (case map_of kvs k of None \<Rightarrow> Inr JUndefined | Some v \<Rightarrow> Inr v)"
| "get_prop (JBool b) k = Inr JUndefined"
| "get_prop (JNum n) k = Inr JUndefined"
| "get_prop (JStr s) k = Inr JUndefined"
| "get_prop (JArr vs) k = Inr JUndefined"

subsection \<open>The outside world\<close>

text \<open>The three URLs of \<^verbatim>\<open>process.env\<close>.\<close>

datatype endpoint = PARKINGSPOTS_URL | HANDICAP_PARKINGSPOTS_URL | SERVER_URL

text \<open>
  How one GET can end, stage by stage of the promise chain: \<^verbatim>\<open>fetch\<close> rejects;
  it resolves with a response (of some HTTP status, which \<^verbatim>\<open>fetch\<close> does not turn
  into a rejection) whose \<^verbatim>\<open>text()\<close> rejects; the text is not JSON; the text
  parses to a value.
\<close>

datatype request_outcome =
    NetworkFailure
  | TextFailure nat
  | Malformed nat
  | Parsed nat jsval

text \<open>How \<^verbatim>\<open>await schedulePushNotification(...)\<close> ends (the function is not in the sources).\<close>

datatype push_outcome = PushResolved | PushRejected

text \<open>
  How \<^verbatim>\<open>await registerForPushNotificationsAsync()\<close> ends (not in the sources either):
  it rejects, or resolves with a value.
\<close>

datatype token_outcome = TokenRejected | TokenResolved jsval

text \<open>The calls the component makes, as events.\<close>

datatype event =
    HttpGet endpoint
  | HttpPost endpoint jsval
  | ConsoleLog string
  | ConsoleLogData string jsval
  | ConsoleError string js_error
  | SetSpots jsval
  | SetHandicapSpots jsval
  | SetIsInside bool
  | SetUserLocation
  | SchedulePushNotification jsval jsval
  | RegisterForPushNotifications
  | RegisterTask string nat
  | SetInterval nat
  | StartBackgroundLocationTracking
  | AddNotificationReceivedListener

text \<open>How an \<^verbatim>\<open>async\<close> function ends.\<close>

datatype completion = Resolved | Rejected js_error

subsection \<open>\<^verbatim>\<open>fetchSpots\<close>\<close>

text \<open>
  The chain \<^verbatim>\<open>fetch(url).then(r => r.text()).then(t => JSON.parse(t)).then(data => {
  console.log(..., data); x = data.field })\<close> up to its \<^verbatim>\<open>.catch\<close>: the console output
  of the last callback, and either the error the chain rejects with or the value
  assigned. The status of the response is never read.
\<close>

definition fetch_chain :: "string \<Rightarrow> request_outcome \<Rightarrow> event list \<times> (js_error + jsval)" where
  "fetch_chain field out =
     (case out of
        NetworkFailure \<Rightarrow> ([], Inl NetworkError)
      | TextFailure status \<Rightarrow> ([], Inl BodyError)
      | Malformed status \<Rightarrow> ([], Inl SyntaxError)
      | Parsed status data \<Rightarrow>
          ([ConsoleLogData ''Data fetched successfully'' data], get_prop data field))"

text \<open>
  The awaited chain with its \<^verbatim>\<open>.catch(error => console.error(...))\<close>: the events, and
  the value of the local variable afterwards (\<open>cur\<close> is its value before; the catch
  leaves it alone).
\<close>

definition fetch_count :: "endpoint \<Rightarrow> string \<Rightarrow> request_outcome \<Rightarrow> jsval \<Rightarrow> event list \<times> jsval" where
  "fetch_count url field out cur =
     (case fetch_chain field out of
        (evs, Inl error) \<Rightarrow> (HttpGet url # evs @ [ConsoleError ''Error fetching data'' error], cur)
      | (evs, Inr v) \<Rightarrow> (HttpGet url # evs, v))"

text \<open>
  \<^verbatim>\<open>fetchSpots\<close>, lines 67-107. \<open>isInside\<close> is the constant of the render whose
  closure this is; the two locals start at \<^verbatim>\<open>0\<close>; both setters are called
  whatever happened; the push is awaited outside any \<^verbatim>\<open>try\<close>.
\<close>

definition fetchSpots ::
  "bool \<Rightarrow> request_outcome \<Rightarrow> request_outcome \<Rightarrow> push_outcome \<Rightarrow> event list \<times> completion" where
  "fetchSpots isInside general accessible push =
     (let (evs1, spots) = fetch_count PARKINGSPOTS_URL ''free_spots'' general (JNum 0);
          (evs2, handicapSpots) =
             fetch_count HANDICAP_PARKINGSPOTS_URL ''free_handicap_spots'' accessible (JNum 0);
          evs3 = [SetSpots spots, SetHandicapSpots handicapSpots]
      in if isInside
         then (evs1 @ evs2 @ evs3 @ [SchedulePushNotification spots handicapSpots],
               case push of PushResolved \<Rightarrow> Resolved | PushRejected \<Rightarrow> Rejected PushError)
         else (evs1 @ evs2 @ evs3, Resolved))"

subsection \<open>The component's state\<close>

text \<open>
  The \<^verbatim>\<open>useState\<close> cells that the loop reads or writes (lines 24-28);
  \<^verbatim>\<open>modalVisible\<close> and \<^verbatim>\<open>userLocation\<close> only drive the map and are left out.
\<close>

record app_state =
  spots :: jsval
  handicapSpots :: jsval
  isInside :: bool

definition initial_state :: app_state where
  "initial_state = \<lparr>spots = JNum 0, handicapSpots = JNum 0, isInside = False\<rparr>"

fun apply_event :: "event \<Rightarrow> app_state \<Rightarrow> app_state" where
  "apply_event (SetSpots v) st = st\<lparr>spots := v\<rparr>"
| "apply_event (SetHandicapSpots v) st = st\<lparr>handicapSpots := v\<rparr>"
| "apply_event (SetIsInside b) st = st\<lparr>isInside := b\<rparr>"
| "apply_event e st = st"

definition apply_events :: "event list \<Rightarrow> app_state \<Rightarrow> app_state" where
  "apply_events evs st = fold apply_event evs st"

subsection \<open>Closures of a render\<close>

text \<open>
  \<^verbatim>\<open>fetchSpots\<close> is defined anew by every render and closes over that render's
  constant \<^verbatim>\<open>isInside\<close> (line 28): \<open>render_fetchSpots st\<close> is the function a render
  in state \<open>st\<close> defines. All five effects have the dependency list \<^verbatim>\<open>[]\<close>, so they
  run once, after the first render, and every callback they hand out (to
  \<^verbatim>\<open>setInterval\<close>, to \<^verbatim>\<open>startBackgroundLocationTracking\<close>) calls the
  \<^verbatim>\<open>fetchSpots\<close> of that first render, whose state is the \<^verbatim>\<open>useState\<close> initial
  values: \<open>mounted_fetchSpots\<close>.
\<close>

definition render_fetchSpots ::
  "app_state \<Rightarrow> request_outcome \<Rightarrow> request_outcome \<Rightarrow> push_outcome \<Rightarrow> event list \<times> completion" where
  "render_fetchSpots st = fetchSpots (isInside st)"

definition mounted_fetchSpots ::
  "request_outcome \<Rightarrow> request_outcome \<Rightarrow> push_outcome \<Rightarrow> event list \<times> completion" where
  "mounted_fetchSpots = render_fetchSpots initial_state"

subsection \<open>The effects (lines 31-154)\<close>

text \<open>
  The body of the POST, \<^verbatim>\<open>JSON.stringify({token: expoPushToken})\<close>, as the JSON value
  it denotes: \<^verbatim>\<open>JSON.stringify\<close> leaves out a property whose value is
  \<^verbatim>\<open>undefined\<close>.
\<close>

definition token_body :: "jsval \<Rightarrow> jsval" where
  "token_body expoPushToken =
     (if expoPushToken = JUndefined then JObj [] else JObj [(''token'', expoPushToken)])"

text \<open>
  \<^verbatim>\<open>registerToken\<close>, lines 32-45: the POST is issued after the awaited registration,
  so not at all when that rejects; its promise is dropped.
\<close>

definition registerToken :: "token_outcome \<Rightarrow> event list" where
  "registerToken t =
     RegisterForPushNotifications #
     (case t of
        TokenRejected \<Rightarrow> []
      | TokenResolved expoPushToken \<Rightarrow> [HttpPost SERVER_URL (token_body expoPushToken)])"

definition BACKGROUND_FETCH_TASK :: string where
  "BACKGROUND_FETCH_TASK = ''background-fetch''"

text \<open>
  The effect of lines 110-124: a first \<^verbatim>\<open>fetchSpots()\<close>, the registration of the
  background task with \<^verbatim>\<open>minimumInterval: 1\<close>, and \<^verbatim>\<open>setInterval(fetchSpots, 10000)\<close>
  (milliseconds). The events of the first call are kept together, although the call is
  not awaited.
\<close>

definition interval_effect ::
  "request_outcome \<Rightarrow> request_outcome \<Rightarrow> push_outcome \<Rightarrow> event list" where
  "interval_effect general accessible push =
     fst (mounted_fetchSpots general accessible push) @
     [RegisterTask BACKGROUND_FETCH_TASK 1,
      ConsoleLog ''Background fetch task registered'',
      SetInterval 10000]"

text \<open>
  Mounting: the first render, then the five effects in the order the component
  declares them (token registration, location tracking, interval, location tracking
  again, notification listener).
\<close>

definition mount_events ::
  "token_outcome \<Rightarrow> request_outcome \<Rightarrow> request_outcome \<Rightarrow> push_outcome \<Rightarrow> event list" where
  "mount_events t general accessible push =
     registerToken t @
     [StartBackgroundLocationTracking] @
     interval_effect general accessible push @
     [StartBackgroundLocationTracking] @
     [AddNotificationReceivedListener]"

definition mount ::
  "token_outcome \<Rightarrow> request_outcome \<Rightarrow> request_outcome \<Rightarrow> push_outcome \<Rightarrow> app_state" where
  "mount t general accessible push =
     apply_events (mount_events t general accessible push) initial_state"

subsection \<open>The callbacks\<close>

text \<open>
  The two \<^verbatim>\<open>onFirstVisit\<close> callbacks handed to the location service: the one of lines
  52-55 logs and awaits \<^verbatim>\<open>fetchSpots\<close>, the one of lines 128-130 calls it and drops
  the promise. \<open>onLocationChange\<close> is lines 132-134 (the first registration passes
  \<^verbatim>\<open>setIsInside\<close> itself, to the same effect).
\<close>

definition onFirstVisit ::
  "request_outcome \<Rightarrow> request_outcome \<Rightarrow> push_outcome \<Rightarrow> event list \<times> completion" where
  "onFirstVisit general accessible push =
     (ConsoleLog ''Trigger push notification'' # fst (mounted_fetchSpots general accessible push),
      snd (mounted_fetchSpots general accessible push))"

definition onFirstVisit' ::
  "request_outcome \<Rightarrow> request_outcome \<Rightarrow> push_outcome \<Rightarrow> event list" where
  "onFirstVisit' general accessible push = fst (mounted_fetchSpots general accessible push)"

definition onLocationChange :: "bool \<Rightarrow> event list" where
  "onLocationChange isInsideGeofence = [SetIsInside isInsideGeofence]"

text \<open>
  The background task, lines 159-173: \<^verbatim>\<open>NewData\<close> when the awaited \<^verbatim>\<open>fetchSpots\<close>
  resolves, \<^verbatim>\<open>Failed\<close> when it rejects. \<open>inside\<close> is the \<^verbatim>\<open>isInside\<close> of the
  render that defined the task.
\<close>

datatype background_fetch_result = NewData | Failed

definition background_fetch_task ::
  "bool \<Rightarrow> request_outcome \<Rightarrow> request_outcome \<Rightarrow> push_outcome
     \<Rightarrow> event list \<times> background_fetch_result" where
  "background_fetch_task inside general accessible push =
     (case fetchSpots inside general accessible push of
        (evs, Resolved) \<Rightarrow>
          (ConsoleLog ''Got background fetch call'' # evs @
             [ConsoleLog ''Background fetch task completed successfully''], NewData)
      | (evs, Rejected err) \<Rightarrow>
          (ConsoleLog ''Got background fetch call'' # evs @
             [ConsoleError ''Background fetch task failed:'' err], Failed))"

subsection \<open>Runs of the mounted component\<close>

text \<open>
  What can happen after mounting: the interval fires; the location service calls one
  of the two \<^verbatim>\<open>onFirstVisit\<close> callbacks, its inside/outside callback or its location
  callback; the platform runs the background task. Each carries the answers of the
  outside world to the calls it makes. Every invocation of \<^verbatim>\<open>fetchSpots\<close> runs to
  its end within its step: interleavings of two invocations in flight are not modelled.

  \<^verbatim>\<open>TaskManager.defineTask\<close> stands in the body of the component, so every render
  defines the task again, with the \<^verbatim>\<open>fetchSpots\<close> of that render: the background
  step uses \<open>render_fetchSpots\<close> of the current state. The interval and the location
  callbacks keep the closure of the first render.
\<close>

datatype step =
    TimerTick request_outcome request_outcome push_outcome
  | FirstVisit request_outcome request_outcome push_outcome
  | FirstVisit' request_outcome request_outcome push_outcome
  | LocationChange bool
  | UserLocation
  | BackgroundFetch request_outcome request_outcome push_outcome

fun step_events :: "app_state \<Rightarrow> step \<Rightarrow> event list" where
  "step_events st (TimerTick g a n) = fst (mounted_fetchSpots g a n)"
| "step_events st (FirstVisit g a n) = fst (onFirstVisit g a n)"
| "step_events st (FirstVisit' g a n) = onFirstVisit' g a n"
| "step_events st (LocationChange b) = onLocationChange b"
| "step_events st UserLocation = [SetUserLocation]"
| "step_events st (BackgroundFetch g a n) = fst (background_fetch_task (isInside st) g a n)"

definition app_step :: "app_state \<Rightarrow> step \<Rightarrow> app_state" where
  "app_step st s = apply_events (step_events st s) st"

fun run_state :: "app_state \<Rightarrow> step list \<Rightarrow> app_state" where
  "run_state st [] = st"
| "run_state st (s # ss) = run_state (app_step st s) ss"

fun run_trace :: "app_state \<Rightarrow> step list \<Rightarrow> event list" where
  "run_trace st [] = []"
| "run_trace st (s # ss) = step_events st s @ run_trace (app_step st s) ss"

text \<open>The whole life of the process: mounting, then any steps.\<close>

definition app_trace ::
  "token_outcome \<Rightarrow> request_outcome \<Rightarrow> request_outcome \<Rightarrow> push_outcome \<Rightarrow> step list
     \<Rightarrow> event list" where
  "app_trace t g a n ss = mount_events t g a n @ run_trace (mount t g a n) ss"

subsection \<open>Kinds of events\<close>

fun is_push :: "event \<Rightarrow> bool" where
  "is_push (SchedulePushNotification v w) = True"
| "is_push e = False"

fun is_console_error :: "event \<Rightarrow> bool" where
  "is_console_error (ConsoleError m e) = True"
| "is_console_error e = False"

fun is_setter :: "event \<Rightarrow> bool" where
  "is_setter (SetSpots v) = True"
| "is_setter (SetHandicapSpots v) = True"
| "is_setter e = False"

fun is_request_event :: "event \<Rightarrow> bool" where
  "is_request_event (HttpGet u) = True"
| "is_request_event (ConsoleLogData m d) = True"
| "is_request_event (ConsoleError m e) = True"
| "is_request_event e = False"

fun is_token_event :: "event \<Rightarrow> bool" where
  "is_token_event RegisterForPushNotifications = True"
| "is_token_event (HttpPost u b) = True"
| "is_token_event e = False"

fun is_schedule_event :: "event \<Rightarrow> bool" where
  "is_schedule_event (SetInterval ms) = True"
| "is_schedule_event (RegisterTask name minimumInterval) = True"
| "is_schedule_event e = False"

text \<open>A count as the data model wants it: a number that is not negative.\<close>

fun nonneg_count :: "jsval \<Rightarrow> bool" where
  "nonneg_count (JNum n) = (0 \<le> n)"
| "nonneg_count v = False"

subsection \<open>Failed requests and well-formed feeds\<close>

text \<open>
  A request has failed when its chain rejects, that is, when the \<^verbatim>\<open>.catch\<close> runs and
  the local variable keeps its initial \<^verbatim>\<open>0\<close>.
\<close>

definition request_failed :: "string \<Rightarrow> request_outcome \<Rightarrow> bool" where
  "request_failed field out =
     (case snd (fetch_chain field out) of Inl e \<Rightarrow> True | Inr v \<Rightarrow> False)"

text \<open>
  A feed that only ever sends counts that are not negative: whenever the chain of a
  request assigns a value, the value is such a count.
\<close>

definition feed_nonneg :: "string \<Rightarrow> request_outcome \<Rightarrow> bool" where
  "feed_nonneg field out =
     (case snd (fetch_chain field out) of Inl e \<Rightarrow> True | Inr v \<Rightarrow> nonneg_count v)"

fun step_feed_nonneg :: "step \<Rightarrow> bool" where
  "step_feed_nonneg (TimerTick g a n) =
     (feed_nonneg ''free_spots'' g \<and> feed_nonneg ''free_handicap_spots'' a)"
| "step_feed_nonneg (FirstVisit g a n) =
     (feed_nonneg ''free_spots'' g \<and> feed_nonneg ''free_handicap_spots'' a)"
| "step_feed_nonneg (FirstVisit' g a n) =
     (feed_nonneg ''free_spots'' g \<and> feed_nonneg ''free_handicap_spots'' a)"
| "step_feed_nonneg (BackgroundFetch g a n) =
     (feed_nonneg ''free_spots'' g \<and> feed_nonneg ''free_handicap_spots'' a)"
| "step_feed_nonneg (LocationChange b) = True"
| "step_feed_nonneg UserLocation = True"

section \<open>Facts about \<^verbatim>\<open>fetchSpots\<close> and the runs\<close>

lemma apply_events_append: "apply_events (xs @ ys) st = apply_events ys (apply_events xs st)"
  by (simp add: apply_events_def)

lemma fetch_count_fst:
  "fst (fetch_count url field out cur) =
     HttpGet url # fst (fetch_chain field out) @
       (case snd (fetch_chain field out) of
          Inl e \<Rightarrow> [ConsoleError ''Error fetching data'' e] | Inr v \<Rightarrow> [])"
  by (simp add: fetch_count_def split: prod.splits sum.splits)

lemma fetch_count_snd:
  "snd (fetch_count url field out cur) =
     (case snd (fetch_chain field out) of Inl e \<Rightarrow> cur | Inr v \<Rightarrow> v)"
  by (simp add: fetch_count_def split: prod.splits sum.splits)

text \<open>The events of one invocation, in order, and how it ends.\<close>

lemma fetchSpots_fst:
  "fst (fetchSpots ins g a n) =
     fst (fetch_count PARKINGSPOTS_URL ''free_spots'' g (JNum 0)) @
     fst (fetch_count HANDICAP_PARKINGSPOTS_URL ''free_handicap_spots'' a (JNum 0)) @
     [SetSpots (snd (fetch_count PARKINGSPOTS_URL ''free_spots'' g (JNum 0))),
      SetHandicapSpots
        (snd (fetch_count HANDICAP_PARKINGSPOTS_URL ''free_handicap_spots'' a (JNum 0)))] @
     (if ins
      then [SchedulePushNotification
              (snd (fetch_count PARKINGSPOTS_URL ''free_spots'' g (JNum 0)))
              (snd (fetch_count HANDICAP_PARKINGSPOTS_URL ''free_handicap_spots'' a (JNum 0)))]
      else [])"
  by (simp add: fetchSpots_def Let_def split: prod.splits)

lemma fetchSpots_snd:
  "snd (fetchSpots ins g a n) =
     (if ins \<and> n = PushRejected then Rejected PushError else Resolved)"
  by (cases n) (simp_all add: fetchSpots_def Let_def split: prod.splits)

lemma fetch_chain_request_events: "list_all is_request_event (fst (fetch_chain field out))"
  by (cases out) (simp_all add: fetch_chain_def)

lemma fetch_count_request_events:
  "list_all is_request_event (fst (fetch_count url field out cur))"
  using fetch_chain_request_events [of field out]
  by (simp add: fetch_count_fst split: sum.splits)

lemma fetch_count_gets: "HttpGet url \<in> set (fst (fetch_count url field out cur))"
  by (simp add: fetch_count_fst)

lemma apply_request_events: "list_all is_request_event evs \<Longrightarrow> apply_events evs st = st"
proof (induction evs)
  case Nil
  then show ?case by (simp add: apply_events_def)
next
  case (Cons e evs)
  then show ?case by (cases e) (simp_all add: apply_events_def)
qed

lemma filter_request_events:
  "list_all is_request_event evs \<Longrightarrow>
     filter is_push evs = [] \<and> filter is_setter evs = [] \<and> filter is_token_event evs = []
       \<and> filter is_schedule_event evs = []"
proof (induction evs)
  case Nil
  then show ?case by simp
next
  case (Cons e evs)
  then show ?case by (cases e) simp_all
qed

lemma fetchSpots_state:
  "apply_events (fst (fetchSpots ins g a n)) st =
     st\<lparr>spots := snd (fetch_count PARKINGSPOTS_URL ''free_spots'' g (JNum 0)),
        handicapSpots :=
          snd (fetch_count HANDICAP_PARKINGSPOTS_URL ''free_handicap_spots'' a (JNum 0))\<rparr>"
  by (simp add: fetchSpots_fst apply_events_append apply_request_events fetch_count_request_events)
    (simp add: apply_events_def)

lemma fetchSpots_spots:
  "spots (apply_events (fst (fetchSpots ins g a n)) st) =
     (case snd (fetch_chain ''free_spots'' g) of Inl e \<Rightarrow> JNum 0 | Inr v \<Rightarrow> v)"
  by (simp add: fetchSpots_state fetch_count_snd)

lemma fetchSpots_handicapSpots:
  "handicapSpots (apply_events (fst (fetchSpots ins g a n)) st) =
     (case snd (fetch_chain ''free_handicap_spots'' a) of Inl e \<Rightarrow> JNum 0 | Inr v \<Rightarrow> v)"
  by (simp add: fetchSpots_state fetch_count_snd)

text \<open>
  An invocation sends a push exactly when the \<^verbatim>\<open>isInside\<close> of its own closure is
  true, and then one, with the values of its two locals.
\<close>

lemma fetchSpots_pushes:
  "filter is_push (fst (fetchSpots ins g a n)) =
     (if ins
      then [SchedulePushNotification
              (snd (fetch_count PARKINGSPOTS_URL ''free_spots'' g (JNum 0)))
              (snd (fetch_count HANDICAP_PARKINGSPOTS_URL ''free_handicap_spots'' a (JNum 0)))]
      else [])"
  by (simp add: fetchSpots_fst filter_request_events fetch_count_request_events)

lemma fetchSpots_setters:
  "filter is_setter (fst (fetchSpots ins g a n)) =
     [SetSpots (snd (fetch_count PARKINGSPOTS_URL ''free_spots'' g (JNum 0))),
      SetHandicapSpots
        (snd (fetch_count HANDICAP_PARKINGSPOTS_URL ''free_handicap_spots'' a (JNum 0)))]"
  by (simp add: fetchSpots_fst filter_request_events fetch_count_request_events)


lemma fetchSpots_token: "filter is_token_event (fst (fetchSpots ins g a n)) = []"
  by (simp add: fetchSpots_fst filter_request_events fetch_count_request_events)

text \<open>
  The closure the effects captured is the one of the first render, where
  \<^verbatim>\<open>isInside\<close> is the initial \<^verbatim>\<open>false\<close>: polls driven by the interval or by the
  location service never send a push, whatever the state says.
\<close>

lemma mounted_fetchSpots_eq: "mounted_fetchSpots = fetchSpots False"
  by (simp add: mounted_fetchSpots_def render_fetchSpots_def initial_state_def fun_eq_iff)

lemma timer_poll_never_pushes: "filter is_push (step_events st (TimerTick g a n)) = []"
  by (simp add: mounted_fetchSpots_eq fetchSpots_pushes)

lemma first_visit_never_pushes:
  "filter is_push (step_events st (FirstVisit g a n)) = [] \<and>
   filter is_push (step_events st (FirstVisit' g a n)) = []"
  by (simp add: onFirstVisit_def onFirstVisit'_def mounted_fetchSpots_eq fetchSpots_pushes)

lemma poll_step_state:
  "app_step st (TimerTick g a n) = apply_events (fst (fetchSpots False g a n)) st"
  "app_step st (FirstVisit g a n) = apply_events (fst (fetchSpots False g a n)) st"
  "app_step st (FirstVisit' g a n) = apply_events (fst (fetchSpots False g a n)) st"
  by (simp_all add: app_step_def mounted_fetchSpots_eq onFirstVisit_def onFirstVisit'_def
      apply_events_def)

lemma background_task_fst:
  "fst (background_fetch_task ins g a n) =
     ConsoleLog ''Got background fetch call'' # fst (fetchSpots ins g a n) @
       [case snd (fetchSpots ins g a n) of
          Resolved \<Rightarrow> ConsoleLog ''Background fetch task completed successfully''
        | Rejected err \<Rightarrow> ConsoleError ''Background fetch task failed:'' err]"
  by (simp add: background_fetch_task_def split: prod.splits completion.splits)

lemma background_task_snd:
  "snd (background_fetch_task ins g a n) =
     (case snd (fetchSpots ins g a n) of Resolved \<Rightarrow> NewData | Rejected err \<Rightarrow> Failed)"
  by (simp add: background_fetch_task_def split: prod.splits completion.splits)

lemma background_step_state:
  "app_step st (BackgroundFetch g a n) = apply_events (fst (fetchSpots (isInside st) g a n)) st"
  by (simp add: app_step_def background_task_fst apply_events_def split: completion.splits)

lemma mount_state:
  "mount t g a n = apply_events (fst (fetchSpots False g a n)) initial_state"
  by (cases t)
    (simp_all add: mount_def mount_events_def registerToken_def interval_effect_def
      mounted_fetchSpots_eq apply_events_def)

lemma request_failed_iff:
  "request_failed field out =
     (case out of
        NetworkFailure \<Rightarrow> True
      | TextFailure status \<Rightarrow> True
      | Malformed status \<Rightarrow> True
      | Parsed status data \<Rightarrow> data = JNull \<or> data = JUndefined)"
proof (cases out)
  case (Parsed status data)
  then show ?thesis
    by (cases data) (simp_all add: request_failed_def fetch_chain_def split: option.splits)
qed (simp_all add: request_failed_def fetch_chain_def)

lemma fetch_count_errors:
  "length (filter is_console_error (fst (fetch_count url field out cur))) =
     (if request_failed field out then 1 else 0)"
  by (cases out)
    (simp_all add: fetch_count_fst fetch_chain_def request_failed_def split: sum.splits)

lemma run_state_append: "run_state st (ss @ ts) = run_state (run_state st ss) ts"
  by (induction ss arbitrary: st) simp_all

text \<open>
  What one request leaves in its count, read off the outcome alone: 0 when the chain
  rejects, the own property of a parsed object, and \<^verbatim>\<open>undefined\<close> when the parsed
  value has no such property.
\<close>

lemma fetch_count_value:
  "snd (fetch_count url field out (JNum 0)) =
     (case out of
        Parsed status (JObj kvs) \<Rightarrow>
          (case map_of kvs field of Some v \<Rightarrow> v | None \<Rightarrow> JUndefined)
      | Parsed status JNull \<Rightarrow> JNum 0
      | Parsed status JUndefined \<Rightarrow> JNum 0
      | Parsed status data \<Rightarrow> JUndefined
      | _ \<Rightarrow> JNum 0)"
proof (cases out)
  case (Parsed status data)
  then show ?thesis
    by (cases data) (simp_all add: fetch_count_snd fetch_chain_def split: option.splits)
qed (simp_all add: fetch_count_snd fetch_chain_def)

lemma feed_nonneg_iff:
  "feed_nonneg field out =
     (case out of
        Parsed status (JObj kvs) \<Rightarrow>
          (case map_of kvs field of Some v \<Rightarrow> nonneg_count v | None \<Rightarrow> False)
      | Parsed status JNull \<Rightarrow> True
      | Parsed status JUndefined \<Rightarrow> True
      | Parsed status data \<Rightarrow> False
      | _ \<Rightarrow> True)"
proof (cases out)
  case (Parsed status data)
  then show ?thesis
    by (cases data) (simp_all add: feed_nonneg_def fetch_chain_def split: option.splits)
qed (simp_all add: feed_nonneg_def fetch_chain_def)

lemma poll_step_counts:
  assumes "s = TimerTick g a n \<or> s = FirstVisit g a n \<or> s = FirstVisit' g a n \<or>
           s = BackgroundFetch g a n"
  shows "app_step st s =
     st\<lparr>spots := snd (fetch_count PARKINGSPOTS_URL ''free_spots'' g (JNum 0)),
        handicapSpots :=
          snd (fetch_count HANDICAP_PARKINGSPOTS_URL ''free_handicap_spots'' a (JNum 0))\<rparr>"
  using assms by (auto simp: poll_step_state background_step_state fetchSpots_state)

section \<open>The claims\<close>

subsection \<open>C1: a failed sub-request\<close>

text \<open>
  C1 as stated: when one of the two sub-requests fails and the other succeeds, the
  failed sub-count retains its prior cached value. It does not: with
  \<^verbatim>\<open>handicapSpots\<close> at 4, a poll that receives \<^verbatim>\<open>{free_spots: 5}\<close> and a network
  error for the accessible endpoint leaves \<^verbatim>\<open>handicapSpots\<close> different from 4.
\<close>

theorem C1_counterexample:
  "handicapSpots
     (app_step \<lparr>spots = JNum 2, handicapSpots = JNum 4, isInside = False\<rparr>
        (TimerTick (Parsed 200 (JObj [(''free_spots'', JNum 5)])) NetworkFailure PushResolved))
   \<noteq> handicapSpots \<lparr>spots = JNum 2, handicapSpots = JNum 4, isInside = False\<rparr>"
  by (simp add: poll_step_state fetchSpots_handicapSpots fetch_chain_def)

text \<open>
  C1, amended: for every invocation of \<^verbatim>\<open>fetchSpots\<close>, whatever the state before, a
  sub-request that fails sets its count to 0 and a sub-request that succeeds sets its
  count to the value received; the call still applies both. So \<^verbatim>\<open>{free_spots: 5}\<close>
  with a network error for the accessible endpoint yields 5 and 0.
\<close>

theorem C1_failed_count_is_zero:
  "(request_failed ''free_spots'' g \<longrightarrow>
      spots (apply_events (fst (fetchSpots ins g a n)) st) = JNum 0) \<and>
   (request_failed ''free_handicap_spots'' a \<longrightarrow>
      handicapSpots (apply_events (fst (fetchSpots ins g a n)) st) = JNum 0) \<and>
   (snd (fetch_chain ''free_spots'' g) = Inr v \<longrightarrow>
      spots (apply_events (fst (fetchSpots ins g a n)) st) = v) \<and>
   (snd (fetch_chain ''free_handicap_spots'' a) = Inr w \<longrightarrow>
      handicapSpots (apply_events (fst (fetchSpots ins g a n)) st) = w)"
  by (simp add: fetchSpots_spots fetchSpots_handicapSpots request_failed_def split: sum.splits)

theorem C1_failed_count_is_zero_witness:
  "request_failed ''free_handicap_spots'' NetworkFailure \<and>
   snd (fetch_chain ''free_spots'' (Parsed 200 (JObj [(''free_spots'', JNum 5)]))) = Inr (JNum 5) \<and>
   spots (apply_events
            (fst (fetchSpots True (Parsed 200 (JObj [(''free_spots'', JNum 5)])) NetworkFailure
                    PushResolved))
            \<lparr>spots = JNum 2, handicapSpots = JNum 4, isInside = True\<rparr>) = JNum 5 \<and>
   handicapSpots (apply_events
            (fst (fetchSpots True (Parsed 200 (JObj [(''free_spots'', JNum 5)])) NetworkFailure
                    PushResolved))
            \<lparr>spots = JNum 2, handicapSpots = JNum 4, isInside = True\<rparr>) = JNum 0 \<and>
   request_failed ''free_spots'' (Malformed 502) \<and>
   snd (fetch_chain ''free_handicap_spots''
          (Parsed 200 (JObj [(''free_handicap_spots'', JNum 1)]))) = Inr (JNum 1) \<and>
   spots (apply_events
            (fst (fetchSpots False (Malformed 502)
                    (Parsed 200 (JObj [(''free_handicap_spots'', JNum 1)])) PushResolved))
            \<lparr>spots = JNum 2, handicapSpots = JNum 4, isInside = True\<rparr>) = JNum 0 \<and>
   handicapSpots (apply_events
            (fst (fetchSpots False (Malformed 502)
                    (Parsed 200 (JObj [(''free_handicap_spots'', JNum 1)])) PushResolved))
            \<lparr>spots = JNum 2, handicapSpots = JNum 4, isInside = True\<rparr>) = JNum 1"
proof -
  have failed: "request_failed ''free_handicap_spots'' NetworkFailure"
    by (simp add: request_failed_def fetch_chain_def)
  have got: "snd (fetch_chain ''free_spots'' (Parsed 200 (JObj [(''free_spots'', JNum 5)])))
      = Inr (JNum 5)"
    by (simp add: fetch_chain_def)
  have failed': "request_failed ''free_spots'' (Malformed 502)"
    by (simp add: request_failed_def fetch_chain_def)
  have got': "snd (fetch_chain ''free_handicap_spots''
      (Parsed 200 (JObj [(''free_handicap_spots'', JNum 1)]))) = Inr (JNum 1)"
    by (simp add: fetch_chain_def)
  from failed got failed' got'
    C1_failed_count_is_zero
      [where g = "Parsed 200 (JObj [(''free_spots'', JNum 5)])" and a = NetworkFailure
         and ins = True and n = PushResolved and v = "JNum 5"
         and st = "\<lparr>spots = JNum 2, handicapSpots = JNum 4, isInside = True\<rparr>"]
    C1_failed_count_is_zero
      [where g = "Malformed 502" and a = "Parsed 200 (JObj [(''free_handicap_spots'', JNum 1)])"
         and ins = False and n = PushResolved and w = "JNum 1"
         and st = "\<lparr>spots = JNum 2, handicapSpots = JNum 4, isInside = True\<rparr>"]
  show ?thesis by simp
qed

subsection \<open>C2: a push on every poll while inside\<close>

text \<open>
  C2: on every poll a push is sent if and only if the user is inside at that poll.
  The guard \<^verbatim>\<open>if (isInside)\<close> of line 104 is there for that, but the
  \<^verbatim>\<open>fetchSpots\<close> that the interval calls is the closure of the first render, whose
  \<^verbatim>\<open>isInside\<close> stays \<^verbatim>\<open>false\<close>. The run below mounts the component, lets the
  location service report that the user is inside, and lets the interval fire with
  both requests answered: the state says inside, and the poll sends nothing.
\<close>

theorem C2_inside_timer_poll_sends_nothing:
  "isInside
     (run_state
        (mount (TokenResolved (JStr ''ExponentPushToken''))
           (Parsed 200 (JObj [(''free_spots'', JNum 5)]))
           (Parsed 200 (JObj [(''free_handicap_spots'', JNum 2)])) PushResolved)
        [LocationChange True]) \<and>
   filter is_push
     (step_events
        (run_state
           (mount (TokenResolved (JStr ''ExponentPushToken''))
              (Parsed 200 (JObj [(''free_spots'', JNum 5)]))
              (Parsed 200 (JObj [(''free_handicap_spots'', JNum 2)])) PushResolved)
           [LocationChange True])
        (TimerTick (Parsed 200 (JObj [(''free_spots'', JNum 5)]))
           (Parsed 200 (JObj [(''free_handicap_spots'', JNum 2)])) PushResolved)) = []"
  by (simp add: mount_state fetchSpots_state app_step_def onLocationChange_def apply_events_def
      mounted_fetchSpots_eq fetchSpots_pushes)

subsection \<open>C3: the counts in the state\<close>

lemma app_step_counts:
  assumes "nonneg_count (spots st)" and "nonneg_count (handicapSpots st)"
    and "step_feed_nonneg s"
  shows "nonneg_count (spots (app_step st s)) \<and> nonneg_count (handicapSpots (app_step st s))"
proof (cases s)
  case (LocationChange b)
  with assms show ?thesis by (simp add: app_step_def onLocationChange_def apply_events_def)
next
  case UserLocation
  with assms show ?thesis by (simp add: app_step_def apply_events_def)
next
  case (TimerTick g a n)
  with assms show ?thesis
    by (simp add: poll_step_state fetchSpots_spots fetchSpots_handicapSpots feed_nonneg_def
        split: sum.splits)
next
  case (FirstVisit g a n)
  with assms show ?thesis
    by (simp add: poll_step_state fetchSpots_spots fetchSpots_handicapSpots feed_nonneg_def
        split: sum.splits)
next
  case (FirstVisit' g a n)
  with assms show ?thesis
    by (simp add: poll_step_state fetchSpots_spots fetchSpots_handicapSpots feed_nonneg_def
        split: sum.splits)
next
  case (BackgroundFetch g a n)
  with assms show ?thesis
    by (simp add: background_step_state fetchSpots_spots fetchSpots_handicapSpots
        feed_nonneg_def split: sum.splits)
qed

lemma run_state_counts:
  "nonneg_count (spots st) \<Longrightarrow> nonneg_count (handicapSpots st) \<Longrightarrow>
   list_all step_feed_nonneg ss \<Longrightarrow>
     nonneg_count (spots (run_state st ss)) \<and> nonneg_count (handicapSpots (run_state st ss))"
proof (induction ss arbitrary: st)
  case Nil
  then show ?case by simp
next
  case (Cons s ss)
  from Cons.prems have "nonneg_count (spots (app_step st s)) \<and>
      nonneg_count (handicapSpots (app_step st s))"
    by (simp add: app_step_counts)
  with Cons.IH [of "app_step st s"] Cons.prems show ?case by simp
qed

text \<open>
  C3 as stated: for all sequences of fetch results both counts in the state are
  non-negative integers, and a fetch failure never makes them regress to zero. Neither
  holds: a response \<^verbatim>\<open>{free_spots: -3}\<close> is stored as it came, and after a poll that
  stored 5 a poll whose requests fail stores 0.
\<close>

theorem C3_counterexample:
  "\<not> nonneg_count
       (spots (run_state initial_state
                 [TimerTick (Parsed 200 (JObj [(''free_spots'', JNum (- 3))]))
                    (Parsed 200 (JObj [(''free_handicap_spots'', JNum 1)])) PushResolved])) \<and>
   spots (run_state initial_state
            [TimerTick (Parsed 200 (JObj [(''free_spots'', JNum 5)]))
               (Parsed 200 (JObj [(''free_handicap_spots'', JNum 2)])) PushResolved,
             TimerTick NetworkFailure NetworkFailure PushResolved]) = JNum 0 \<and>
   spots (run_state initial_state
            [TimerTick (Parsed 200 (JObj [(''free_spots'', JNum 5)]))
               (Parsed 200 (JObj [(''free_handicap_spots'', JNum 2)])) PushResolved]) = JNum 5"
  by (simp add: poll_step_state fetchSpots_spots fetch_chain_def)

text \<open>
  C3, amended: for all sequences of fetch results, after every poll (the one at
  mounting, and any later one by the interval, by a first-visit callback or by the
  background task) each count in the state is 0 when that poll's sub-request failed (a
  network failure, an unreadable or malformed body, a \<^verbatim>\<open>null\<close> body), whatever it
  held before, and otherwise the value of the field exactly as received, unvalidated:
  \<^verbatim>\<open>undefined\<close> when the parsed body has no such field. Hence both counts are
  non-negative integers throughout every run in which each sub-request either fails or
  delivers a non-negative integer in its field.
\<close>

theorem C3_counts_are_what_the_feed_delivers:
  "(feed_nonneg ''free_spots'' g \<and> feed_nonneg ''free_handicap_spots'' a \<and>
    list_all step_feed_nonneg ss \<longrightarrow>
      nonneg_count (spots (run_state (mount t g a n) ss)) \<and>
      nonneg_count (handicapSpots (run_state (mount t g a n) ss))) \<and>
   (s = TimerTick g' a' n' \<or> s = FirstVisit g' a' n' \<or> s = FirstVisit' g' a' n' \<or>
    s = BackgroundFetch g' a' n' \<longrightarrow>
      spots (run_state (mount t g a n) (ss @ [s])) =
        (case g' of
           Parsed status (JObj kvs) \<Rightarrow>
             (case map_of kvs ''free_spots'' of Some v \<Rightarrow> v | None \<Rightarrow> JUndefined)
         | Parsed status JNull \<Rightarrow> JNum 0
         | Parsed status JUndefined \<Rightarrow> JNum 0
         | Parsed status data \<Rightarrow> JUndefined
         | _ \<Rightarrow> JNum 0) \<and>
      handicapSpots (run_state (mount t g a n) (ss @ [s])) =
        (case a' of
           Parsed status (JObj kvs) \<Rightarrow>
             (case map_of kvs ''free_handicap_spots'' of Some v \<Rightarrow> v | None \<Rightarrow> JUndefined)
         | Parsed status JNull \<Rightarrow> JNum 0
         | Parsed status JUndefined \<Rightarrow> JNum 0
         | Parsed status data \<Rightarrow> JUndefined
         | _ \<Rightarrow> JNum 0)) \<and>
   spots (mount t g a n) =
     (case g of
        Parsed status (JObj kvs) \<Rightarrow>
          (case map_of kvs ''free_spots'' of Some v \<Rightarrow> v | None \<Rightarrow> JUndefined)
      | Parsed status JNull \<Rightarrow> JNum 0
      | Parsed status JUndefined \<Rightarrow> JNum 0
      | Parsed status data \<Rightarrow> JUndefined
      | _ \<Rightarrow> JNum 0) \<and>
   handicapSpots (mount t g a n) =
     (case a of
        Parsed status (JObj kvs) \<Rightarrow>
          (case map_of kvs ''free_handicap_spots'' of Some v \<Rightarrow> v | None \<Rightarrow> JUndefined)
      | Parsed status JNull \<Rightarrow> JNum 0
      | Parsed status JUndefined \<Rightarrow> JNum 0
      | Parsed status data \<Rightarrow> JUndefined
      | _ \<Rightarrow> JNum 0)"
proof (intro conjI impI)
  assume h: "feed_nonneg ''free_spots'' g \<and> feed_nonneg ''free_handicap_spots'' a \<and>
    list_all step_feed_nonneg ss"
  then have "nonneg_count (spots (mount t g a n))" "nonneg_count (handicapSpots (mount t g a n))"
    by (simp_all add: mount_state fetchSpots_spots fetchSpots_handicapSpots feed_nonneg_def
        split: sum.splits)
  with h have both: "nonneg_count (spots (run_state (mount t g a n) ss)) \<and>
      nonneg_count (handicapSpots (run_state (mount t g a n) ss))"
    using run_state_counts [of "mount t g a n" ss] by simp
  from both show "nonneg_count (spots (run_state (mount t g a n) ss))" by simp
  from both show "nonneg_count (handicapSpots (run_state (mount t g a n) ss))" by simp
next
  assume "s = TimerTick g' a' n' \<or> s = FirstVisit g' a' n' \<or> s = FirstVisit' g' a' n' \<or>
    s = BackgroundFetch g' a' n'"
  then have step: "run_state (mount t g a n) (ss @ [s]) =
      (run_state (mount t g a n) ss)
        \<lparr>spots := snd (fetch_count PARKINGSPOTS_URL ''free_spots'' g' (JNum 0)),
         handicapSpots :=
           snd (fetch_count HANDICAP_PARKINGSPOTS_URL ''free_handicap_spots'' a' (JNum 0))\<rparr>"
    by (simp add: run_state_append poll_step_counts)
  show "spots (run_state (mount t g a n) (ss @ [s])) =
        (case g' of
           Parsed status (JObj kvs) \<Rightarrow>
             (case map_of kvs ''free_spots'' of Some v \<Rightarrow> v | None \<Rightarrow> JUndefined)
         | Parsed status JNull \<Rightarrow> JNum 0
         | Parsed status JUndefined \<Rightarrow> JNum 0
         | Parsed status data \<Rightarrow> JUndefined
         | _ \<Rightarrow> JNum 0)"
    unfolding step by (simp add: fetch_count_value)
  show "handicapSpots (run_state (mount t g a n) (ss @ [s])) =
        (case a' of
           Parsed status (JObj kvs) \<Rightarrow>
             (case map_of kvs ''free_handicap_spots'' of Some v \<Rightarrow> v | None \<Rightarrow> JUndefined)
         | Parsed status JNull \<Rightarrow> JNum 0
         | Parsed status JUndefined \<Rightarrow> JNum 0
         | Parsed status data \<Rightarrow> JUndefined
         | _ \<Rightarrow> JNum 0)"
    unfolding step by (simp add: fetch_count_value)
next
  show "spots (mount t g a n) =
     (case g of
        Parsed status (JObj kvs) \<Rightarrow>
          (case map_of kvs ''free_spots'' of Some v \<Rightarrow> v | None \<Rightarrow> JUndefined)
      | Parsed status JNull \<Rightarrow> JNum 0
      | Parsed status JUndefined \<Rightarrow> JNum 0
      | Parsed status data \<Rightarrow> JUndefined
      | _ \<Rightarrow> JNum 0)"
    by (simp add: mount_state fetchSpots_state fetch_count_value)
  show "handicapSpots (mount t g a n) =
     (case a of
        Parsed status (JObj kvs) \<Rightarrow>
          (case map_of kvs ''free_handicap_spots'' of Some v \<Rightarrow> v | None \<Rightarrow> JUndefined)
      | Parsed status JNull \<Rightarrow> JNum 0
      | Parsed status JUndefined \<Rightarrow> JNum 0
      | Parsed status data \<Rightarrow> JUndefined
      | _ \<Rightarrow> JNum 0)"
    by (simp add: mount_state fetchSpots_state fetch_count_value)
qed


theorem C3_counts_are_what_the_feed_delivers_witness:
  "feed_nonneg ''free_spots'' (Parsed 200 (JObj [(''free_spots'', JNum 5)])) \<and>
   feed_nonneg ''free_handicap_spots'' NetworkFailure \<and>
   list_all step_feed_nonneg
     [LocationChange True,
      TimerTick (Malformed 502) (Parsed 200 (JObj [(''free_handicap_spots'', JNum 2)]))
        PushResolved] \<and>
   nonneg_count
     (spots (run_state
        (mount TokenRejected (Parsed 200 (JObj [(''free_spots'', JNum 5)])) NetworkFailure
           PushResolved)
        [LocationChange True,
         TimerTick (Malformed 502) (Parsed 200 (JObj [(''free_handicap_spots'', JNum 2)]))
           PushResolved])) \<and>
   nonneg_count
     (handicapSpots (run_state
        (mount TokenRejected (Parsed 200 (JObj [(''free_spots'', JNum 5)])) NetworkFailure
           PushResolved)
        [LocationChange True,
         TimerTick (Malformed 502) (Parsed 200 (JObj [(''free_handicap_spots'', JNum 2)]))
           PushResolved])) \<and>
   spots (run_state
        (mount TokenRejected (Parsed 200 (JObj [(''free_spots'', JNum 5)])) NetworkFailure
           PushResolved)
        ([LocationChange True,
          TimerTick (Malformed 502) (Parsed 200 (JObj [(''free_handicap_spots'', JNum 2)]))
            PushResolved] @
         [BackgroundFetch NetworkFailure (Parsed 200 (JObj [])) PushResolved])) = JNum 0 \<and>
   handicapSpots (run_state
        (mount TokenRejected (Parsed 200 (JObj [(''free_spots'', JNum 5)])) NetworkFailure
           PushResolved)
        ([LocationChange True,
          TimerTick (Malformed 502) (Parsed 200 (JObj [(''free_handicap_spots'', JNum 2)]))
            PushResolved] @
         [BackgroundFetch NetworkFailure (Parsed 200 (JObj [])) PushResolved])) = JUndefined \<and>
   spots (mount TokenRejected (Parsed 200 (JObj [(''free_spots'', JNum 5)])) NetworkFailure
            PushResolved) = JNum 5 \<and>
   handicapSpots (mount TokenRejected (Parsed 200 (JObj [(''free_spots'', JNum 5)]))
            NetworkFailure PushResolved) = JNum 0"
proof -
  have h1: "feed_nonneg ''free_spots'' (Parsed 200 (JObj [(''free_spots'', JNum 5)]))"
    by (simp add: feed_nonneg_def fetch_chain_def)
  have h2: "feed_nonneg ''free_handicap_spots'' NetworkFailure"
    by (simp add: feed_nonneg_def fetch_chain_def)
  have h3: "list_all step_feed_nonneg
     [LocationChange True,
      TimerTick (Malformed 502) (Parsed 200 (JObj [(''free_handicap_spots'', JNum 2)]))
        PushResolved]"
    by (simp add: feed_nonneg_def fetch_chain_def)
  from h1 h2 h3
    C3_counts_are_what_the_feed_delivers
      [where g = "Parsed 200 (JObj [(''free_spots'', JNum 5)])" and a = NetworkFailure
         and t = TokenRejected and n = PushResolved
         and ss = "[LocationChange True,
            TimerTick (Malformed 502) (Parsed 200 (JObj [(''free_handicap_spots'', JNum 2)]))
              PushResolved]"
         and s = "BackgroundFetch NetworkFailure (Parsed 200 (JObj [])) PushResolved"
         and g' = NetworkFailure and a' = "Parsed 200 (JObj [])" and n' = PushResolved]
  show ?thesis by simp
qed

subsection \<open>C4: errors of the two requests\<close>

text \<open>
  C4 as stated: for every outcome of the two requests, a non-success status among
  them, every fetch error is caught and logged where it occurs. A non-success status
  is not: the status of a response is never read, so a response with status 500 and
  the body \<^verbatim>\<open>{free_spots: 7}\<close> is taken as a success, nothing is logged with
  \<^verbatim>\<open>console.error\<close>, and 7 is displayed.
\<close>

theorem C4_counterexample:
  "filter is_console_error
     (fst (fetchSpots True (Parsed 500 (JObj [(''free_spots'', JNum 7)]))
             (Parsed 200 (JObj [(''free_handicap_spots'', JNum 1)])) PushResolved)) = [] \<and>
   SetSpots (JNum 7) \<in>
     set (fst (fetchSpots True (Parsed 500 (JObj [(''free_spots'', JNum 7)]))
                 (Parsed 200 (JObj [(''free_handicap_spots'', JNum 1)])) PushResolved))"
  by (simp add: fetchSpots_fst fetch_count_fst fetch_count_snd fetch_chain_def)

text \<open>
  C4, amended: for every outcome of the two requests, no error of a request reaches
  the caller of \<^verbatim>\<open>fetchSpots\<close>: the call resolves whenever the closure is outside
  the geofence or the push resolves, and how it ends does not depend on the two
  outcomes at all. Each failed request (a network failure, an unreadable body, a
  malformed body, a \<^verbatim>\<open>null\<close> body) is logged once with \<^verbatim>\<open>console.error\<close>, and a
  request that did not fail is not logged as an error; the status of a response plays
  no part in whether the request counts as failed.
\<close>

theorem C4_request_errors_are_caught:
  "snd (fetchSpots False g a n) = Resolved \<and>
   snd (fetchSpots ins g a PushResolved) = Resolved \<and>
   snd (fetchSpots ins g a n) = snd (fetchSpots ins g' a' n) \<and>
   length (filter is_console_error (fst (fetchSpots ins g a n))) =
     (if request_failed ''free_spots'' g then 1 else 0) +
     (if request_failed ''free_handicap_spots'' a then 1 else 0) \<and>
   request_failed field NetworkFailure \<and>
   request_failed field (TextFailure status) \<and>
   request_failed field (Malformed status) \<and>
   request_failed field (Parsed status data) = (data = JNull \<or> data = JUndefined)"
  by (simp add: fetchSpots_snd fetchSpots_fst fetch_count_errors request_failed_iff)

theorem C4_request_errors_are_caught_witness:
  "snd (fetchSpots True NetworkFailure (Malformed 200) PushResolved) = Resolved \<and>
   length (filter is_console_error
             (fst (fetchSpots True NetworkFailure (Malformed 200) PushResolved))) = 2 \<and>
   request_failed ''free_spots'' NetworkFailure \<and>
   request_failed ''free_handicap_spots'' (Malformed 200)"
  using C4_request_errors_are_caught
    [where g = NetworkFailure and a = "Malformed 200" and ins = True and n = PushResolved
       and status = 200]
  by simp

subsection \<open>C5: the poll on entering the geofence\<close>

text \<open>
  Both first-visit callbacks invoke \<^verbatim>\<open>fetchSpots\<close> within the callback itself, with
  no tick of the interval in between: they issue the two requests, produce the events
  of a timer poll on the same answers (the first one after its log line) and leave the
  same state.
\<close>

lemma first_visit_like_timer_poll:
  "step_events st (FirstVisit' g a n) = step_events st (TimerTick g a n) \<and>
   step_events st (FirstVisit g a n) =
     ConsoleLog ''Trigger push notification'' # step_events st (TimerTick g a n) \<and>
   app_step st (FirstVisit g a n) = app_step st (TimerTick g a n) \<and>
   app_step st (FirstVisit' g a n) = app_step st (TimerTick g a n) \<and>
   HttpGet PARKINGSPOTS_URL \<in> set (step_events st (FirstVisit g a n)) \<and>
   HttpGet HANDICAP_PARKINGSPOTS_URL \<in> set (step_events st (FirstVisit g a n)) \<and>
   HttpGet PARKINGSPOTS_URL \<in> set (step_events st (FirstVisit' g a n)) \<and>
   HttpGet HANDICAP_PARKINGSPOTS_URL \<in> set (step_events st (FirstVisit' g a n))"
  by (simp add: poll_step_state onFirstVisit_def onFirstVisit'_def mounted_fetchSpots_eq
      fetchSpots_fst fetch_count_gets)

text \<open>
  C5: on the entered transition the poll is to be followed by the same downstream
  updates as any poll, the state and then the notification; the callback of line 53
  even logs \<^verbatim>\<open>Trigger push notification\<close>. The requests and the two setters do
  happen at once, but the \<^verbatim>\<open>fetchSpots\<close> the callbacks call is the closure of the
  first render, whose \<^verbatim>\<open>isInside\<close> stays \<^verbatim>\<open>false\<close>. In the run below the component
  is mounted, the location service reports that the user is inside, and then calls
  either first-visit callback with both requests answered: the state says inside, and
  the events of the poll end with the two setters, with no push.
\<close>

theorem C5_inside_entry_poll_sends_nothing:
  "isInside
     (run_state
        (mount (TokenResolved (JStr ''ExponentPushToken''))
           (Parsed 200 (JObj [(''free_spots'', JNum 5)]))
           (Parsed 200 (JObj [(''free_handicap_spots'', JNum 2)])) PushResolved)
        [LocationChange True]) \<and>
   step_events
     (run_state
        (mount (TokenResolved (JStr ''ExponentPushToken''))
           (Parsed 200 (JObj [(''free_spots'', JNum 5)]))
           (Parsed 200 (JObj [(''free_handicap_spots'', JNum 2)])) PushResolved)
        [LocationChange True])
     (FirstVisit (Parsed 200 (JObj [(''free_spots'', JNum 6)]))
        (Parsed 200 (JObj [(''free_handicap_spots'', JNum 3)])) PushResolved) =
     [ConsoleLog ''Trigger push notification'',
      HttpGet PARKINGSPOTS_URL,
      ConsoleLogData ''Data fetched successfully'' (JObj [(''free_spots'', JNum 6)]),
      HttpGet HANDICAP_PARKINGSPOTS_URL,
      ConsoleLogData ''Data fetched successfully'' (JObj [(''free_handicap_spots'', JNum 3)]),
      SetSpots (JNum 6),
      SetHandicapSpots (JNum 3)] \<and>
   step_events
     (run_state
        (mount (TokenResolved (JStr ''ExponentPushToken''))
           (Parsed 200 (JObj [(''free_spots'', JNum 5)]))
           (Parsed 200 (JObj [(''free_handicap_spots'', JNum 2)])) PushResolved)
        [LocationChange True])
     (FirstVisit' (Parsed 200 (JObj [(''free_spots'', JNum 6)]))
        (Parsed 200 (JObj [(''free_handicap_spots'', JNum 3)])) PushResolved) =
     [HttpGet PARKINGSPOTS_URL,
      ConsoleLogData ''Data fetched successfully'' (JObj [(''free_spots'', JNum 6)]),
      HttpGet HANDICAP_PARKINGSPOTS_URL,
      ConsoleLogData ''Data fetched successfully'' (JObj [(''free_handicap_spots'', JNum 3)]),
      SetSpots (JNum 6),
      SetHandicapSpots (JNum 3)]"
  by (simp add: mount_state fetchSpots_state app_step_def onLocationChange_def apply_events_def
      onFirstVisit_def onFirstVisit'_def mounted_fetchSpots_eq fetchSpots_fst fetch_count_fst
      fetch_count_snd fetch_chain_def)

subsection \<open>C6: the interval and the background task\<close>








subsection \<open>C7: the order within one poll\<close>

text \<open>
  C7: the events of every invocation of \<^verbatim>\<open>fetchSpots\<close> are, in this order, the events
  of the two requests (both issued, each with its console output and nothing else),
  then \<^verbatim>\<open>setSpots\<close> and \<^verbatim>\<open>setHandicapSpots\<close>, and only then, when the closure is
  inside the geofence, the one call of \<^verbatim>\<open>schedulePushNotification\<close>: no push stands
  before the two setters of its invocation.
\<close>

theorem C7_fetch_then_state_then_push:
  "\<exists>pre v w.
     fst (fetchSpots ins g a n) =
       pre @ [SetSpots v, SetHandicapSpots w] @
         (if ins then [SchedulePushNotification v w] else []) \<and>
     list_all is_request_event pre \<and>
     HttpGet PARKINGSPOTS_URL \<in> set pre \<and>
     HttpGet HANDICAP_PARKINGSPOTS_URL \<in> set pre"
proof -
  let ?pre = "fst (fetch_count PARKINGSPOTS_URL ''free_spots'' g (JNum 0)) @
     fst (fetch_count HANDICAP_PARKINGSPOTS_URL ''free_handicap_spots'' a (JNum 0))"
  let ?v = "snd (fetch_count PARKINGSPOTS_URL ''free_spots'' g (JNum 0))"
  let ?w = "snd (fetch_count HANDICAP_PARKINGSPOTS_URL ''free_handicap_spots'' a (JNum 0))"
  have "fst (fetchSpots ins g a n) =
      ?pre @ [SetSpots ?v, SetHandicapSpots ?w] @
        (if ins then [SchedulePushNotification ?v ?w] else [])"
    by (simp add: fetchSpots_fst)
  moreover have "list_all is_request_event ?pre"
    by (simp add: fetch_count_request_events)
  moreover have "HttpGet PARKINGSPOTS_URL \<in> set ?pre"
    "HttpGet HANDICAP_PARKINGSPOTS_URL \<in> set ?pre"
    by (simp_all add: fetch_count_gets)
  ultimately show ?thesis by blast
qed

theorem C7_fetch_then_state_then_push_witness:
  "fst (fetchSpots True (Parsed 200 (JObj [(''free_spots'', JNum 5)]))
          (Parsed 200 (JObj [(''free_handicap_spots'', JNum 2)])) PushResolved) =
   [HttpGet PARKINGSPOTS_URL,
    ConsoleLogData ''Data fetched successfully'' (JObj [(''free_spots'', JNum 5)]),
    HttpGet HANDICAP_PARKINGSPOTS_URL,
    ConsoleLogData ''Data fetched successfully'' (JObj [(''free_handicap_spots'', JNum 2)])] @
   [SetSpots (JNum 5), SetHandicapSpots (JNum 2)] @
   [SchedulePushNotification (JNum 5) (JNum 2)]"
proof -
  from C7_fetch_then_state_then_push
    [of True "Parsed 200 (JObj [(''free_spots'', JNum 5)])"
       "Parsed 200 (JObj [(''free_handicap_spots'', JNum 2)])" PushResolved]
  obtain pre v w where
    "fst (fetchSpots True (Parsed 200 (JObj [(''free_spots'', JNum 5)]))
          (Parsed 200 (JObj [(''free_handicap_spots'', JNum 2)])) PushResolved) =
       pre @ [SetSpots v, SetHandicapSpots w] @ [SchedulePushNotification v w]"
    by auto
  then show ?thesis
    by (simp add: fetchSpots_fst fetch_count_fst fetch_count_snd fetch_chain_def)
qed

subsection \<open>C8: the device token\<close>

lemma step_events_token: "filter is_token_event (step_events st s) = []"
  by (cases s)
    (simp_all add: mounted_fetchSpots_eq onFirstVisit_def onFirstVisit'_def onLocationChange_def
      background_task_fst fetchSpots_token split: completion.splits)

lemma run_trace_token: "filter is_token_event (run_trace st ss) = []"
  by (induction ss arbitrary: st) (simp_all add: step_events_token)

text \<open>
  Whatever the registration returns, the only token events of a process are those of
  \<^verbatim>\<open>registerToken\<close> at mounting: no POST when the registration rejects, and a body
  without the property when it resolves with \<^verbatim>\<open>undefined\<close>.
\<close>

lemma token_events_of_process:
  "filter is_token_event (app_trace t g a n ss) = registerToken t"
  by (cases t)
    (simp_all add: app_trace_def run_trace_token mount_events_def registerToken_def
      interval_effect_def mounted_fetchSpots_eq fetchSpots_token)

text \<open>
  C8: when the registration at startup yields a token (a string), the whole life of
  the process, mounting and any steps after it, holds exactly one call of
  \<^verbatim>\<open>registerForPushNotificationsAsync\<close> and exactly one POST, to \<^verbatim>\<open>SERVER_URL\<close>
  with the body \<^verbatim>\<open>{token: <string>}\<close>; no step after mounting obtains or sends a
  token again, and the component keeps the token in no state it could change.
\<close>

theorem C8_token_registered_once:
  "filter is_token_event (app_trace (TokenResolved (JStr tok)) g a n ss) =
     [RegisterForPushNotifications, HttpPost SERVER_URL (JObj [(''token'', JStr tok)])] \<and>
   filter is_token_event (run_trace st ss) = []"
  by (simp add: token_events_of_process run_trace_token registerToken_def token_body_def)

theorem C8_token_registered_once_witness:
  "filter is_token_event
     (app_trace (TokenResolved (JStr ''ExponentPushToken'')) NetworkFailure NetworkFailure
        PushResolved
        [TimerTick NetworkFailure NetworkFailure PushResolved, LocationChange True,
         BackgroundFetch NetworkFailure NetworkFailure PushResolved]) =
     [RegisterForPushNotifications,
      HttpPost SERVER_URL (JObj [(''token'', JStr ''ExponentPushToken'')])]"
  using C8_token_registered_once
    [of "''ExponentPushToken''" NetworkFailure NetworkFailure PushResolved
       "[TimerTick NetworkFailure NetworkFailure PushResolved, LocationChange True,
         BackgroundFetch NetworkFailure NetworkFailure PushResolved]"]
  by simp

subsection \<open>C9: the counts notified are the counts displayed\<close>

text \<open>
  C9: within one invocation of \<^verbatim>\<open>fetchSpots\<close>, if \<^verbatim>\<open>schedulePushNotification\<close> is
  called with two counts, then these are the very values passed to \<^verbatim>\<open>setSpots\<close> and
  \<^verbatim>\<open>setHandicapSpots\<close> in that invocation, the only two setter calls it makes, and
  the values the state holds afterwards, whatever state was rendered before.
\<close>

theorem C9_notified_counts_are_displayed_counts:
  assumes "SchedulePushNotification v w \<in> set (fst (fetchSpots ins g a n))"
  shows "filter is_setter (fst (fetchSpots ins g a n)) = [SetSpots v, SetHandicapSpots w] \<and>
         spots (apply_events (fst (fetchSpots ins g a n)) st) = v \<and>
         handicapSpots (apply_events (fst (fetchSpots ins g a n)) st) = w"
proof -
  have "SchedulePushNotification v w \<in> set (filter is_push (fst (fetchSpots ins g a n)))"
    using assms by simp
  then have "v = snd (fetch_count PARKINGSPOTS_URL ''free_spots'' g (JNum 0)) \<and>
      w = snd (fetch_count HANDICAP_PARKINGSPOTS_URL ''free_handicap_spots'' a (JNum 0))"
    by (simp add: fetchSpots_pushes split: if_splits)
  then show ?thesis
    by (simp add: fetchSpots_setters fetchSpots_state)
qed

theorem C9_notified_counts_are_displayed_counts_witness:
  "SchedulePushNotification (JNum 5) (JNum 0) \<in>
     set (fst (fetchSpots True (Parsed 200 (JObj [(''free_spots'', JNum 5)])) NetworkFailure
                 PushResolved)) \<and>
   filter is_setter
     (fst (fetchSpots True (Parsed 200 (JObj [(''free_spots'', JNum 5)])) NetworkFailure
             PushResolved)) = [SetSpots (JNum 5), SetHandicapSpots (JNum 0)] \<and>
   spots (apply_events
            (fst (fetchSpots True (Parsed 200 (JObj [(''free_spots'', JNum 5)])) NetworkFailure
                    PushResolved))
            \<lparr>spots = JNum 9, handicapSpots = JNum 9, isInside = True\<rparr>) = JNum 5"
proof -
  have h: "SchedulePushNotification (JNum 5) (JNum 0) \<in>
     set (fst (fetchSpots True (Parsed 200 (JObj [(''free_spots'', JNum 5)])) NetworkFailure
                 PushResolved))"
    by (simp add: fetchSpots_fst fetch_count_snd fetch_chain_def)
  from h C9_notified_counts_are_displayed_counts
    [OF h, of "\<lparr>spots = JNum 9, handicapSpots = JNum 9, isInside = True\<rparr>"]
  show ?thesis by simp
qed

subsection \<open>C10: the result of the background task\<close>

text \<open>
  C10: the background task returns \<^verbatim>\<open>NewData\<close> on every invocation in which
  \<^verbatim>\<open>fetchSpots\<close> resolves, and no failure of a request or of parsing leads to
  \<^verbatim>\<open>Failed\<close>: the result does not depend on the outcomes of the two requests, it is
  \<^verbatim>\<open>NewData\<close> whenever the push resolves or the closure is outside the geofence, and
  \<^verbatim>\<open>Failed\<close> only when the awaited push itself rejects.
\<close>

theorem C10_background_task_result:
  "(snd (fetchSpots ins g a n) = Resolved \<longrightarrow> snd (background_fetch_task ins g a n) = NewData) \<and>
   snd (background_fetch_task ins g a PushResolved) = NewData \<and>
   snd (background_fetch_task False g a n) = NewData \<and>
   snd (background_fetch_task ins g a n) = snd (background_fetch_task ins g' a' n) \<and>
   (snd (background_fetch_task ins g a n) = Failed) = (ins \<and> n = PushRejected)"
  by (simp add: background_task_snd fetchSpots_snd)

theorem C10_background_task_result_witness:
  "snd (fetchSpots True NetworkFailure (Malformed 200) PushResolved) = Resolved \<and>
   snd (background_fetch_task True NetworkFailure (Malformed 200) PushResolved) = NewData"
proof -
  have h: "snd (fetchSpots True NetworkFailure (Malformed 200) PushResolved) = Resolved"
    by (simp add: fetchSpots_snd)
  from h C10_background_task_result
    [of True NetworkFailure "Malformed 200" PushResolved, THEN conjunct1]
  show ?thesis by simp
qed

end
